theory Spec2Isabelle
  imports Main "HOL-Library.Word" "HOL-Library.Sublist"
begin

unbundle bit_operations_syntax

section \<open>JavaScript values and objects\<close>

text \<open>
  The values a request body or a stored user row can hold. Numbers are the integer-valued
  ones (\<open>NaN\<close> and fractions do not occur in the parts modelled here); \<open>JObj r\<close> is an
  object or array with reference \<open>r\<close>, so that HOL equality on \<open>jsval\<close> is the strict
  equality \<open>===\<close> of the source (primitives by value, objects by reference).
\<close>

datatype jsval = JUndefined | JNull | JBool bool | JNum int | JStr string | JObj nat

text \<open>Truthiness, as used by \<open>!x\<close>, \<open>x && y\<close> and \<open>if (x)\<close>.\<close>

fun truthy :: "jsval \<Rightarrow> bool" where
  "truthy JUndefined = False"
| "truthy JNull = False"
| "truthy (JBool b) = b"
| "truthy (JNum n) = (n \<noteq> 0)"
| "truthy (JStr s) = (s \<noteq> [])"
| "truthy (JObj r) = True"

text \<open>
  A plain object: its own properties in \<open>Object.keys\<close> order. A well-formed object has
  distinct keys; theorems that need it say so.
\<close>

type_synonym obj = "(string \<times> jsval) list"

definition obj_keys :: "obj \<Rightarrow> string list" where
  "obj_keys ob = map fst ob"

text \<open>\<open>o[k]\<close>: the property's value, \<open>undefined\<close> when the object has no such property.\<close>

definition obj_get :: "obj \<Rightarrow> string \<Rightarrow> jsval" where
  "obj_get ob k = (case map_of ob k of None \<Rightarrow> JUndefined | Some v \<Rightarrow> v)"

text \<open>\<open>delete o[k]\<close>.\<close>

definition obj_delete :: "string \<Rightarrow> obj \<Rightarrow> obj" where
  "obj_delete k ob = filter (\<lambda>p. fst p \<noteq> k) ob"

text \<open>\<open>o[k] = v\<close>: an existing property keeps its place, a new one goes last.\<close>

fun obj_set :: "string \<Rightarrow> jsval \<Rightarrow> obj \<Rightarrow> obj" where
  "obj_set k v [] = [(k, v)]"
| "obj_set k v (p # ps) = (if fst p = k then (k, v) # ps else p # obj_set k v ps)"

section \<open>Errors\<close>

text \<open>
  What the source throws: \<open>ServiceError(httpErrorCode, message)\<close>, the \<open>TypeError\<close> of
  the runtime (a method called on \<open>undefined\<close> or on a value that has no such method), and
  any other exception of a collaborator, of which only the message is read.
\<close>

datatype error = ServiceError int string | TypeError string | Error string

fun message :: "error \<Rightarrow> string" where
  "message (ServiceError c m) = m"
| "message (TypeError m) = m"
| "message (Error m) = m"

section \<open>UserValidator.ts\<close>

text \<open>Modelled from the spec: the enum \<open>UserRoleString\<close> (\<open>enum/UserRoleString\<close> is not
  among the sources); the specification names the roles Kayttaja, Jasenvirkailija and
  Yllapitaja. \<open>OtherRole\<close> stands for any other value a stored \<open>role\<close> column holds.\<close>

datatype UserRoleString = Kayttaja | Jasenvirkailija | Yllapitaja | OtherRole string

text \<open>The modifier is read at \<open>modifier.id\<close> and \<open>modifier.role\<close> only
  (\<open>modifierId\<close> and \<open>modifierRole\<close> here).\<close>

record modifier =
  modifierId :: int
  modifierRole :: UserRoleString

definition allowedSelfEdit :: "string list" where
  "allowedSelfEdit =
     [''screenName'', ''email'', ''residence'', ''phone'', ''isHYYMember'', ''isTKTL'',
      ''password1'', ''password2'']"

definition allowedJVEdit :: "string list" where
  "allowedJVEdit = allowedSelfEdit @ [''name'', ''username'', ''membership'']"

definition allowedAdminEdit :: "string list" where
  "allowedAdminEdit = allowedJVEdit @ [''role'', ''createdAt'']"

definition forbidden :: error where
  "forbidden = ServiceError 403 ''Forbidden modify action''"

text \<open>
  \<open>checkModifyPermission\<close>: the \<open>forEach\<close> over \<open>Object.keys(user)\<close> throws at the first
  key that \<open>allowedEdits.find\<close> does not give back (or gives back as a falsy, that is
  empty, string) and that is not \<open>"id"\<close>.
\<close>

fun checkKeys :: "string list \<Rightarrow> string list \<Rightarrow> error + unit" where
  "checkKeys [] allowedEdits = Inr ()"
| "checkKeys (key # ks) allowedEdits =
     (if (case List.find (\<lambda>allowedEdit. allowedEdit = key) allowedEdits of
            None \<Rightarrow> True | Some found \<Rightarrow> found = [])
         \<and> key \<noteq> ''id''
      then Inl forbidden
      else checkKeys ks allowedEdits)"

definition checkModifyPermission :: "obj \<Rightarrow> string list \<Rightarrow> error + unit" where
  "checkModifyPermission user allowedEdits = checkKeys (obj_keys user) allowedEdits"

text \<open>
  The collaborators of \<open>validateUpdate\<close> that are not part of the validator:
  \<open>userService\<close> (\<open>fetchUser\<close>, which may throw, and the two availability checks),
  the \<open>validator\<close> package (\<open>isEmail\<close>, \<open>isLength\<close> with its \<open>min\<close> and \<open>max\<close>),
  \<open>stringToBoolean\<close> of \<open>utils/UserHelpers\<close>, and \<open>String.prototype.trim\<close> of the
  runtime, which strips the white space and line terminators of Unicode from both ends.
\<close>

record env =
  fetchUser :: "int \<Rightarrow> error + obj"
  usernameAvailable :: "string \<Rightarrow> bool"
  emailAvailable :: "string \<Rightarrow> bool"
  isEmail :: "string \<Rightarrow> bool"
  isLength :: "string \<Rightarrow> nat \<Rightarrow> nat \<Rightarrow> bool"
  stringToBoolean :: "jsval \<Rightarrow> jsval"
  trim :: "string \<Rightarrow> string"

text \<open>
  Lines 135 to 139: for every key of the payload (the keys as they were when the loop
  started), delete the property when the stored user has a value for it and that value is
  strictly equal to the proposed one.
\<close>

definition removeUnchanged :: "obj \<Rightarrow> obj \<Rightarrow> obj" where
  "removeUnchanged oldUser newUser =
     foldl (\<lambda>nu k. if obj_get oldUser k \<noteq> JUndefined \<and> obj_get oldUser k = obj_get nu k
                     then obj_delete k nu else nu)
       newUser (obj_keys newUser)"

text \<open>
  Lines 141 to 160: the choice of the allowed list by modifier, and the check. The second
  component is the payload object as the branch leaves it (the self-edit branch assigns
  \<open>newUser.id\<close> before it checks).
\<close>

definition checkTier :: "int \<Rightarrow> obj \<Rightarrow> modifier \<Rightarrow> (error + unit) \<times> obj" where
  "checkTier userId newUser m =
     (if userId = modifierId m
      then (let newUser' = obj_set ''id'' (JNum userId) newUser
            in (checkModifyPermission newUser' allowedSelfEdit, newUser'))
      else if userId \<noteq> modifierId m \<and> modifierRole m = Jasenvirkailija
      then (checkModifyPermission newUser allowedJVEdit, newUser)
      else if userId \<noteq> modifierId m \<and> modifierRole m = Yllapitaja
      then (checkModifyPermission newUser allowedAdminEdit, newUser)
      else (Inl forbidden, newUser))"

text \<open>
  Lines 133 to 160 of \<open>validateUpdate\<close>, the part the specification calls
  \<open>authorizeUpdate\<close>: fetch the stored user, drop what has not changed, check the rest
  against the modifier's allowed list.
\<close>

definition authorizeUpdate :: "env \<Rightarrow> int \<Rightarrow> obj \<Rightarrow> modifier \<Rightarrow> (error + unit) \<times> obj" where
  "authorizeUpdate e userId newUser m =
     (case fetchUser e userId of
        Inl err \<Rightarrow> (Inl err, newUser)
      | Inr oldUser \<Rightarrow> checkTier userId (removeUnchanged oldUser newUser) m)"

text \<open>
  \<open>checkUsernameAvailability\<close> and \<open>checkEmailAvailability\<close>: nothing to check when the
  property is falsy; \<open>.trim()\<close> on a truthy value that is no string is a \<open>TypeError\<close>.
\<close>

definition checkUsernameAvailability :: "env \<Rightarrow> obj \<Rightarrow> error + unit" where
  "checkUsernameAvailability e newUser =
     (let username = obj_get newUser ''username'' in
      if truthy username then
        (case username of
           JStr s \<Rightarrow> if \<not> usernameAvailable e (trim e s)
                     then Inl (ServiceError 400 ''Username already taken'') else Inr ()
         | _ \<Rightarrow> Inl (TypeError ''newUser.username.trim is not a function''))
      else Inr ())"

definition checkEmailAvailability :: "env \<Rightarrow> obj \<Rightarrow> error + unit" where
  "checkEmailAvailability e newUser =
     (let email = obj_get newUser ''email'' in
      if truthy email then
        (case email of
           JStr s \<Rightarrow> if \<not> emailAvailable e (trim e s)
                     then Inl (ServiceError 400 ''Email address already taken'') else Inr ()
         | _ \<Rightarrow> Inl (TypeError ''newUser.email.trim is not a function''))
      else Inr ())"

text \<open>\<open>checkEmailValidity\<close>; the \<open>validator\<close> functions throw on a value that is no string.\<close>

definition checkEmailValidity :: "env \<Rightarrow> jsval \<Rightarrow> error + bool" where
  "checkEmailValidity e email =
     (if \<not> truthy email then Inr False
      else (case email of
              JStr s \<Rightarrow> Inr (\<not> (\<not> isEmail e s \<or> \<not> isLength e s 1 255))
            | _ \<Rightarrow> Inl (TypeError ''Expected a string'')))"

text \<open>Lines 165 to 168: a truthy \<open>email\<close> has to be a valid one.\<close>

definition checkMalformedEmail :: "env \<Rightarrow> obj \<Rightarrow> error + unit" where
  "checkMalformedEmail e newUser =
     (if truthy (obj_get newUser ''email'')
      then (case checkEmailValidity e (obj_get newUser ''email'') of
              Inl err \<Rightarrow> Inl err
            | Inr valid \<Rightarrow> if \<not> valid then Inl (ServiceError 400 ''Malformed email'')
                           else Inr ())
      else Inr ())"

text \<open>Lines 170 to 176: truthy \<open>isTKTL\<close> and \<open>isHYYMember\<close> are converted in place.\<close>

definition convertBooleans :: "env \<Rightarrow> obj \<Rightarrow> obj" where
  "convertBooleans e newUser =
     (let nu1 = (if truthy (obj_get newUser ''isTKTL'')
                 then obj_set ''isTKTL'' (stringToBoolean e (obj_get newUser ''isTKTL'')) newUser
                 else newUser)
      in if truthy (obj_get nu1 ''isHYYMember'')
         then obj_set ''isHYYMember'' (stringToBoolean e (obj_get nu1 ''isHYYMember'')) nu1
         else nu1)"

text \<open>Lines 178 to 182; \<open>validator.equals\<close> throws when its first argument is no string.\<close>

definition checkPasswords :: "obj \<Rightarrow> error + unit" where
  "checkPasswords newUser =
     (if truthy (obj_get newUser ''password1'') \<and> truthy (obj_get newUser ''password2'')
      then (case obj_get newUser ''password1'' of
              JStr p1 \<Rightarrow> if \<not> (JStr p1 = obj_get newUser ''password2'')
                         then Inl (ServiceError 400 ''Passwords do not match'')
                         else Inr ()
            | _ \<Rightarrow> Inl (TypeError ''Expected a string''))
      else Inr ())"

text \<open>Lines 162 to 182: the checks after the permission check, on the payload \<open>newUser\<close>.\<close>

definition validateRest :: "env \<Rightarrow> obj \<Rightarrow> (error + unit) \<times> obj" where
  "validateRest e newUser =
     (case checkUsernameAvailability e newUser of
        Inl err \<Rightarrow> (Inl err, newUser)
      | Inr _ \<Rightarrow>
     (case checkEmailAvailability e newUser of
        Inl err \<Rightarrow> (Inl err, newUser)
      | Inr _ \<Rightarrow>
     (case checkMalformedEmail e newUser of
        Inl err \<Rightarrow> (Inl err, newUser)
      | Inr _ \<Rightarrow>
     (let newUser' = convertBooleans e newUser
      in (checkPasswords newUser', newUser')))))"

text \<open>
  \<open>validateUpdate(userId, newUser, modifier)\<close>: the result (an exception thrown, or
  nothing) and the payload object \<open>newUser\<close> as the call leaves it.
\<close>

definition validateUpdate :: "env \<Rightarrow> int \<Rightarrow> obj \<Rightarrow> modifier \<Rightarrow> (error + unit) \<times> obj" where
  "validateUpdate e userId newUser m =
     (case authorizeUpdate e userId newUser m of
        (Inl err, newUser') \<Rightarrow> (Inl err, newUser')
      | (Inr _, newUser') \<Rightarrow> validateRest e newUser')"

section \<open>AuthController.ts\<close>

text \<open>
  A response of a handler: \<open>res.status(c).json(new ServiceResponse(payload, message))\<close>,
  where the payload is \<open>null\<close> or \<open>{ token, redirectTo }\<close>; or the redirect of
  \<open>vanillaAuthenticate\<close> with the cookie it sets (token, \<open>maxAge\<close>, domain) and its target.
\<close>

datatype payload = TokenPayload string jsval

datatype response =
    Json int "payload option" string
  | Redirect string int string jsval

text \<open>
  \<open>authenticate\<close>: the request body is an object; \<open>createToken\<close> of the authentication
  service (not among the sources) is a parameter that returns the token string or throws.
  The second component lists the calls of \<open>createToken\<close> the handler made, with their
  arguments.
\<close>

definition authenticate ::
  "(jsval \<Rightarrow> jsval \<Rightarrow> error + string) \<Rightarrow> obj \<Rightarrow> response \<times> (jsval \<times> jsval) list" where
  "authenticate createToken body =
     (if \<not> truthy (obj_get body ''serviceName'') \<or> \<not> truthy (obj_get body ''redirectTo'')
         \<or> \<not> truthy (obj_get body ''permission'') \<or> \<not> truthy (obj_get body ''userId'')
      then (Json 400 None ''Invalid POST params'', [])
      else (case createToken (obj_get body ''userId'') (JNum 1) of
              Inl e \<Rightarrow> (Json 500 None (message e), [(obj_get body ''userId'', JNum 1)])
            | Inr token \<Rightarrow>
                (Json 200 (Some (TokenPayload token (obj_get body ''redirectTo''))) ''Success'',
                 [(obj_get body ''userId'', JNum 1)])))"

text \<open>
  \<open>vanillaAuthenticate\<close>; \<open>hostname\<close> stands for \<open>new URL(x).hostname\<close>, which throws on
  a string that is no URL, outside the \<open>try\<close>.
\<close>

definition vanillaAuthenticate ::
  "(jsval \<Rightarrow> jsval \<Rightarrow> error + string) \<Rightarrow> (jsval \<Rightarrow> error + string) \<Rightarrow> obj
     \<Rightarrow> (error + response) \<times> (jsval \<times> jsval) list" where
  "vanillaAuthenticate createToken hostname body =
     (if \<not> truthy (obj_get body ''permissionVal'') \<or> \<not> truthy (obj_get body ''redirectTo'')
         \<or> \<not> truthy (obj_get body ''permission'') \<or> \<not> truthy (obj_get body ''userId'')
      then (Inr (Json 400 None ''Invalid POST params''), [])
      else (let calls = [(obj_get body ''userId'', obj_get body ''permissionVal'')] in
            case createToken (obj_get body ''userId'') (obj_get body ''permissionVal'') of
              Inl e \<Rightarrow> (Inr (Json 500 None (message e)), calls)
            | Inr token \<Rightarrow>
                (case hostname (obj_get body ''redirectTo'') of
                   Inl e \<Rightarrow> (Inl e, calls)
                 | Inr domain \<Rightarrow>
                     (Inr (Redirect token (1000 * 60 * 60 * 24 * 7) domain
                             (obj_get body ''redirectTo'')), calls))))"

text \<open>
  The bitwise \<open>&\<close> of JavaScript: both operands go through \<open>ToInt32\<close> (the value modulo
  \<open>2^32\<close>, read as a signed 32-bit integer), and so does the result.
\<close>

definition js_bitand :: "int \<Rightarrow> int \<Rightarrow> int" where
  "js_bitand a b = sint ((word_of_int a :: 32 word) AND word_of_int b)"

text \<open>
  Lines 93 to 100 of \<open>requestPermissions\<close>, which the specification calls
  \<open>selectVisibleFields\<close>: \<open>Object.keys(user).forEach((key, idx) => ...)\<close> pushes
  \<open>{ name: key, value: user[key] }\<close> when
  \<open>(Math.pow(2, idx) & service.dataPermissions) == Math.pow(2, idx)\<close>.
\<close>

definition selectVisibleFields :: "obj \<Rightarrow> int \<Rightarrow> (string \<times> jsval) list" where
  "selectVisibleFields user dataPermissions =
     foldl (\<lambda>keys (idx, key).
              if js_bitand (2 ^ idx) dataPermissions = 2 ^ idx
              then keys @ [(key, obj_get user key)] else keys)
       [] (enumerate 0 (obj_keys user))"

section \<open>Authorize.ts\<close>

text \<open>The two headers the middleware reads; \<open>None\<close> is a header the request does not have.\<close>

record request =
  headerAuthorization :: "string option"
  headerCookie :: "string option"

text \<open>
  What a middleware does: it sends a response, or it calls \<open>next()\<close>, with
  \<open>req.authorization\<close> set to the decoded token or left unset.
\<close>

datatype 't outcome = Responded response | Next "'t option"

text \<open>
  \<open>authorize\<close>; \<open>stringToServiceToken\<close> of \<open>token/Token\<close> (not among the sources) is a
  parameter that returns the decoded token or throws.
\<close>

definition authorize :: "(string \<Rightarrow> error + 't) \<Rightarrow> request \<Rightarrow> 't outcome" where
  "authorize stringToServiceToken req =
     (case headerAuthorization req of
        None \<Rightarrow> Responded (Json 401 None ''Unauthorized'')
      | Some token \<Rightarrow>
          if token = [] \<or> \<not> prefix ''Bearer '' token
          then Responded (Json 401 None ''Unauthorized'')
          else (case stringToServiceToken (drop 7 token) of
                  Inl e \<Rightarrow> Responded (Json 500 None (message e))
                | Inr t \<Rightarrow> Next (Some t)))"

text \<open>\<open>s.split(sep)\<close> for a non-empty separator string.\<close>

function js_split_from :: "string \<Rightarrow> string \<Rightarrow> string \<Rightarrow> string list" where
  "js_split_from sep acc [] = [rev acc]"
| "js_split_from sep acc (c # cs) =
     (if sep \<noteq> [] \<and> prefix sep (c # cs)
      then rev acc # js_split_from sep [] (drop (length sep) (c # cs))
      else js_split_from sep (c # acc) cs)"
  by pat_completeness auto
termination
  by (relation "measure (\<lambda>(sep, acc, s). length s)") auto

definition js_split :: "string \<Rightarrow> string \<Rightarrow> string list" where
  "js_split sep s = js_split_from sep [] s"

text \<open>
  Lines 35 to 44 of \<open>loadToken\<close>, the cookie path. \<open>req.header('cookie')\<close> is
  \<open>undefined\<close> when the request has no cookie header, and \<open>.split\<close> on it throws a
  \<open>TypeError\<close> outside any \<open>try\<close>.
\<close>

definition loadTokenFromCookie :: "(string \<Rightarrow> error + 't) \<Rightarrow> request \<Rightarrow> error + 't outcome" where
  "loadTokenFromCookie stringToServiceToken req =
     (case headerCookie req of
        None \<Rightarrow> Inl (TypeError ''Cannot read property split of undefined'')
      | Some c \<Rightarrow>
          (let splittedToken = js_split ''token='' c in
           if length splittedToken > 1
           then (case stringToServiceToken (splittedToken ! 1) of
                   Inl e \<Rightarrow> Inr (Responded (Json 500 None (message e)))
                 | Inr t \<Rightarrow> Inr (Next (Some t)))
           else Inr (Next None)))"

text \<open>\<open>loadToken\<close>: the bearer header first, the cookie otherwise.\<close>

definition loadToken :: "(string \<Rightarrow> error + 't) \<Rightarrow> request \<Rightarrow> error + 't outcome" where
  "loadToken stringToServiceToken req =
     (case headerAuthorization req of
        None \<Rightarrow> loadTokenFromCookie stringToServiceToken req
      | Some token \<Rightarrow>
          if token \<noteq> [] \<and> prefix ''Bearer '' token
          then (case stringToServiceToken (drop 7 token) of
                  Inl e \<Rightarrow> Inr (Responded (Json 500 None (message e)))
                | Inr t \<Rightarrow> Inr (Next (Some t)))
          else loadTokenFromCookie stringToServiceToken req)"

section \<open>Sample data\<close>

text \<open>
  The first user of \<open>seeds/1_testusers.js\<close> as the stored user, and collaborators that
  know this one user, for the evaluations at concrete inputs below. Their \<open>trim\<close> is the
  runtime's on the strings used there: none but \<open>" test_user "\<close> has white space at an end.
\<close>

definition testUser :: obj where
  "testUser =
     [(''id'', JNum 1), (''username'', JStr ''test_user''), (''name'', JStr ''Test User''),
      (''screenName'', JStr ''tuser''), (''email'', JStr ''test@user.com''),
      (''residence'', JStr ''Test''), (''phone'', JStr ''1234567890''),
      (''isHYYMember'', JBool True), (''isTKTL'', JBool True),
      (''membership'', JStr ''jasen''), (''role'', JStr ''member'')]"

definition testEnv :: env where
  "testEnv =
     \<lparr> fetchUser = (\<lambda>i. if i = 1 then Inr testUser
                         else Inl (ServiceError 404 ''User not found'')),
       usernameAvailable = (\<lambda>s. s \<noteq> ''test_user''),
       emailAvailable = (\<lambda>s. s \<noteq> ''test@user.com''),
       isEmail = (\<lambda>s. CHR ''@'' \<in> set s),
       isLength = (\<lambda>s lo hi. lo \<le> length s \<and> length s \<le> hi),
       stringToBoolean = (\<lambda>v. JBool (v = JStr ''true'' \<or> v = JStr ''1'' \<or> v = JBool True)),
       trim = (\<lambda>s. if s = '' test_user '' then ''test_user'' else s) \<rparr>"

text \<open>A decoder that knows one token string and rejects every other as malformed.\<close>

definition testDecoder :: "string \<Rightarrow> error + (int \<times> int)" where
  "testDecoder s = (if s = ''t1'' then Inr (1, 1) else Inl (Error ''jwt malformed''))"

text \<open>A token creation that never throws.\<close>

definition testCreateToken :: "jsval \<Rightarrow> jsval \<Rightarrow> error + string" where
  "testCreateToken u p = Inr ''signed''"

section \<open>Properties of the objects and of the permission check\<close>

lemma find_eq_None: "List.find (\<lambda>a. a = key) xs = None \<longleftrightarrow> key \<notin> set xs"
  by (induction xs) auto

lemma find_eq_Some: "List.find (\<lambda>a. a = key) xs = Some y \<longleftrightarrow> key \<in> set xs \<and> y = key"
  by (induction xs) auto

lemma checkKeys_cases: "checkKeys ks allowed = Inr () \<or> checkKeys ks allowed = Inl forbidden"
  by (induction ks) auto

lemma checkKeys_ok_iff:
  "checkKeys ks allowed = Inr () \<longleftrightarrow> (\<forall>k \<in> set ks. k = ''id'' \<or> (k \<in> set allowed \<and> k \<noteq> []))"
  by (induction ks) (auto simp: find_eq_None find_eq_Some split: option.splits)

lemma checkKeys_forbidden_iff:
  "checkKeys ks allowed = Inl forbidden \<longleftrightarrow> (\<exists>k \<in> set ks. k \<noteq> ''id'' \<and> \<not> (k \<in> set allowed \<and> k \<noteq> []))"
  using checkKeys_cases [of ks allowed] checkKeys_ok_iff [of ks allowed] by auto

lemma obj_keys_set: "set (obj_keys (obj_set k v ob)) = insert k (set (obj_keys ob))"
  by (induction ob) (auto simp: obj_keys_def)

lemma obj_get_distinct:
  "distinct (map fst ob) \<Longrightarrow> (k, v) \<in> set ob \<Longrightarrow> obj_get ob k = v"
  by (simp add: obj_get_def)

lemma step_filter:
  assumes "distinct (map fst nu)"
  shows "(if obj_get old k \<noteq> JUndefined \<and> obj_get old k = obj_get nu k then obj_delete k nu else nu)
       = filter (\<lambda>p. \<not> (fst p = k \<and> obj_get old (fst p) \<noteq> JUndefined \<and> obj_get old (fst p) = snd p)) nu"
proof (cases "obj_get old k \<noteq> JUndefined \<and> obj_get old k = obj_get nu k")
  case True
  have "\<And>p. p \<in> set nu \<Longrightarrow> fst p = k \<Longrightarrow> obj_get nu k = snd p"
    using assms obj_get_distinct by (metis prod.collapse)
  with True show ?thesis
    by (auto simp: obj_delete_def intro!: filter_cong)
next
  case False
  have "\<And>p. p \<in> set nu \<Longrightarrow> fst p = k \<Longrightarrow> obj_get nu k = snd p"
    using assms obj_get_distinct by (metis prod.collapse)
  with False have "\<And>p. p \<in> set nu \<Longrightarrow> \<not> (fst p = k \<and> obj_get old (fst p) \<noteq> JUndefined \<and> obj_get old (fst p) = snd p)"
    by auto
  then have "filter (\<lambda>p. \<not> (fst p = k \<and> obj_get old (fst p) \<noteq> JUndefined \<and> obj_get old (fst p) = snd p)) nu = nu"
    by (simp add: filter_id_conv)
  with False show ?thesis by auto
qed

lemma foldl_filter:
  "distinct (map fst nu) \<Longrightarrow>
   foldl (\<lambda>nu k. if obj_get old k \<noteq> JUndefined \<and> obj_get old k = obj_get nu k
                     then obj_delete k nu else nu) nu ks
   = filter (\<lambda>p. \<not> (fst p \<in> set ks \<and> obj_get old (fst p) \<noteq> JUndefined \<and> obj_get old (fst p) = snd p)) nu"
proof (induction ks arbitrary: nu)
  case Nil
  then show ?case by simp
next
  case (Cons k ks)
  let ?nu1 = "filter (\<lambda>p. \<not> (fst p = k \<and> obj_get old (fst p) \<noteq> JUndefined \<and> obj_get old (fst p) = snd p)) nu"
  have d: "distinct (map fst ?nu1)" using Cons.prems by (simp add: distinct_map_filter)
  show ?case
    apply (simp only: foldl_Cons step_filter [OF Cons.prems])
    apply (simp only: Cons.IH [OF d])
    apply (auto intro!: filter_cong)
    done
qed

lemma removeUnchanged_filter:
  "distinct (obj_keys newUser) \<Longrightarrow>
   removeUnchanged oldUser newUser
   = filter (\<lambda>p. \<not> (obj_get oldUser (fst p) \<noteq> JUndefined \<and> obj_get oldUser (fst p) = snd p)) newUser"
  unfolding removeUnchanged_def obj_keys_def
  by (subst foldl_filter) (auto intro!: filter_cong)


lemma checkModifyPermission_ok_iff:
  "[] \<notin> set allowed \<Longrightarrow>
   checkModifyPermission user allowed = Inr () \<longleftrightarrow> (\<forall>k \<in> set (obj_keys user). k = ''id'' \<or> k \<in> set allowed)"
  unfolding checkModifyPermission_def checkKeys_ok_iff by auto

lemma checkModifyPermission_cases:
  "checkModifyPermission user allowed = Inr () \<or> checkModifyPermission user allowed = Inl forbidden"
  unfolding checkModifyPermission_def by (rule checkKeys_cases)

lemma checkModifyPermission_forbidden:
  "k \<in> set (obj_keys user) \<Longrightarrow> k \<noteq> ''id'' \<Longrightarrow> k \<notin> set allowed \<Longrightarrow>
   checkModifyPermission user allowed = Inl forbidden"
  unfolding checkModifyPermission_def checkKeys_forbidden_iff by auto

lemma set_allowedSelfEdit:
  "set allowedSelfEdit = {''screenName'', ''email'', ''residence'', ''phone'', ''isHYYMember'',
     ''isTKTL'', ''password1'', ''password2''}"
  by (simp add: allowedSelfEdit_def)

lemma set_allowedJVEdit:
  "set allowedJVEdit = {''screenName'', ''email'', ''residence'', ''phone'', ''isHYYMember'',
     ''isTKTL'', ''password1'', ''password2''} \<union> {''name'', ''username'', ''membership''}"
  by (simp add: allowedJVEdit_def set_allowedSelfEdit)

lemma set_allowedAdminEdit:
  "set allowedAdminEdit = ({''screenName'', ''email'', ''residence'', ''phone'', ''isHYYMember'',
     ''isTKTL'', ''password1'', ''password2''} \<union> {''name'', ''username'', ''membership''})
     \<union> {''role'', ''createdAt''}"
  by (simp add: allowedAdminEdit_def set_allowedJVEdit)

lemma no_empty_allowed:
  "[] \<notin> set allowedSelfEdit" "[] \<notin> set allowedJVEdit" "[] \<notin> set allowedAdminEdit"
  by (simp_all add: set_allowedSelfEdit set_allowedJVEdit set_allowedAdminEdit)

lemma cua_not_forbidden: "checkUsernameAvailability e nu \<noteq> Inl forbidden"
  unfolding checkUsernameAvailability_def forbidden_def Let_def
  by (simp split: jsval.splits)

lemma cea_not_forbidden: "checkEmailAvailability e nu \<noteq> Inl forbidden"
  unfolding checkEmailAvailability_def forbidden_def Let_def
  by (simp split: jsval.splits)

lemma cev_not_forbidden: "checkEmailValidity e v \<noteq> Inl forbidden"
  unfolding checkEmailValidity_def forbidden_def
  by (simp split: jsval.splits)

lemma cme_not_forbidden: "checkMalformedEmail e nu \<noteq> Inl forbidden"
proof (cases "checkEmailValidity e (obj_get nu ''email'')")
  case (Inl err)
  then have "err \<noteq> forbidden" using cev_not_forbidden [of e "obj_get nu ''email''"] by auto
  with Inl show ?thesis by (simp add: checkMalformedEmail_def)
next
  case (Inr valid)
  then show ?thesis by (simp add: checkMalformedEmail_def forbidden_def)
qed

lemma cp_not_forbidden: "checkPasswords nu \<noteq> Inl forbidden"
  unfolding checkPasswords_def forbidden_def
  by (simp split: jsval.splits)

lemma validateRest_not_forbidden: "fst (validateRest e nu) \<noteq> Inl forbidden"
proof (cases "checkUsernameAvailability e nu")
  case (Inl err)
  then show ?thesis using cua_not_forbidden [of e nu] by (simp add: validateRest_def)
next
  case a: (Inr u)
  show ?thesis
  proof (cases "checkEmailAvailability e nu")
    case (Inl err)
    then show ?thesis using a cea_not_forbidden [of e nu] by (simp add: validateRest_def)
  next
    case b: (Inr u')
    show ?thesis
    proof (cases "checkMalformedEmail e nu")
      case (Inl err)
      then show ?thesis using a b cme_not_forbidden [of e nu] by (simp add: validateRest_def)
    next
      case (Inr u'')
      then show ?thesis using a b cp_not_forbidden [of "convertBooleans e nu"]
        by (simp add: validateRest_def Let_def)
    qed
  qed
qed

lemma validateUpdate_forbidden_iff:
  "fst (validateUpdate e userId newUser m) = Inl forbidden \<longleftrightarrow>
   fst (authorizeUpdate e userId newUser m) = Inl forbidden"
proof (cases "authorizeUpdate e userId newUser m")
  case (Pair r nu)
  then show ?thesis
    using validateRest_not_forbidden [of e nu]
    by (cases r) (simp_all add: validateUpdate_def)
qed

lemma validateUpdate_forbidden_snd:
  "fst (validateUpdate e userId newUser m) = Inl forbidden \<Longrightarrow>
   snd (validateUpdate e userId newUser m) = snd (authorizeUpdate e userId newUser m)"
proof (cases "authorizeUpdate e userId newUser m")
  case (Pair r nu)
  then show "fst (validateUpdate e userId newUser m) = Inl forbidden \<Longrightarrow> ?thesis"
    using validateRest_not_forbidden [of e nu]
    by (cases r) (simp_all add: validateUpdate_def)
qed

lemma authorizeUpdate_fetched:
  "fetchUser e userId = Inr oldUser \<Longrightarrow>
   authorizeUpdate e userId newUser m = checkTier userId (removeUnchanged oldUser newUser) m"
  by (simp add: authorizeUpdate_def)

lemma checkTier_cases:
  "fst (checkTier userId nu m) = Inr () \<or> fst (checkTier userId nu m) = Inl forbidden"
  unfolding checkTier_def Let_def
  using checkModifyPermission_cases by auto

lemma checkTier_self:
  "userId = modifierId m \<Longrightarrow>
   fst (checkTier userId nu m) = Inr () \<longleftrightarrow> (\<forall>k \<in> set (obj_keys nu). k = ''id'' \<or> k \<in> set allowedSelfEdit)"
  unfolding checkTier_def Let_def
  by (simp add: checkModifyPermission_ok_iff no_empty_allowed obj_keys_set)

lemma checkTier_JV:
  "userId \<noteq> modifierId m \<Longrightarrow> modifierRole m = Jasenvirkailija \<Longrightarrow>
   fst (checkTier userId nu m) = Inr () \<longleftrightarrow> (\<forall>k \<in> set (obj_keys nu). k = ''id'' \<or> k \<in> set allowedJVEdit)"
  unfolding checkTier_def
  by (simp add: checkModifyPermission_ok_iff no_empty_allowed)

lemma checkTier_admin:
  "userId \<noteq> modifierId m \<Longrightarrow> modifierRole m = Yllapitaja \<Longrightarrow>
   fst (checkTier userId nu m) = Inr () \<longleftrightarrow> (\<forall>k \<in> set (obj_keys nu). k = ''id'' \<or> k \<in> set allowedAdminEdit)"
  unfolding checkTier_def
  by (simp add: checkModifyPermission_ok_iff no_empty_allowed)

lemma checkTier_other:
  "userId \<noteq> modifierId m \<Longrightarrow> modifierRole m \<noteq> Jasenvirkailija \<Longrightarrow> modifierRole m \<noteq> Yllapitaja \<Longrightarrow>
   checkTier userId nu m = (Inl forbidden, nu)"
  unfolding checkTier_def by simp

lemma checkTier_snd:
  "snd (checkTier userId nu m) = (if userId = modifierId m then obj_set ''id'' (JNum userId) nu else nu)"
  unfolding checkTier_def Let_def by simp

lemma fetch_testUser: "fetchUser testEnv 1 = Inr testUser"
  by (simp add: testEnv_def)

subsection \<open>Claims about the field-edit check\<close>

text \<open>
  C1. Whatever the modifier's tier (self edit, Jasenvirkailija on another user, Yllapitaja
  on another user): when a field that is left in the payload after the unchanged ones are
  dropped is not \<open>id\<close> and is not in the tier's allowed list, the permission check and
  with it the whole \<open>validateUpdate\<close> end in the one error
  \<open>ServiceError(403, "Forbidden modify action")\<close>. The error is the same for every
  offending field and names none, and the result is an error and nothing else: no part of
  the payload is accepted. The same holds of \<open>checkModifyPermission\<close> for any object
  and any allowed list.
\<close>

theorem forbidden_field_rejects_whole_update:
  assumes "fetchUser e userId = Inr oldUser"
    and "k \<in> set (obj_keys (removeUnchanged oldUser newUser))"
    and "k \<noteq> ''id''"
    and "(userId = modifierId m \<and> k \<notin> set allowedSelfEdit) \<or>
         (userId \<noteq> modifierId m \<and> modifierRole m = Jasenvirkailija \<and> k \<notin> set allowedJVEdit) \<or>
         (userId \<noteq> modifierId m \<and> modifierRole m = Yllapitaja \<and> k \<notin> set allowedAdminEdit)"
  shows "fst (authorizeUpdate e userId newUser m) = Inl (ServiceError 403 ''Forbidden modify action'')
       \<and> fst (validateUpdate e userId newUser m) = Inl (ServiceError 403 ''Forbidden modify action'')
       \<and> (\<forall>user allowedEdits key.
             key \<in> set (obj_keys user) \<and> key \<noteq> ''id'' \<and> key \<notin> set allowedEdits \<longrightarrow>
             checkModifyPermission user allowedEdits
               = Inl (ServiceError 403 ''Forbidden modify action''))"
proof -
  let ?nu = "removeUnchanged oldUser newUser"
  have "fst (checkTier userId ?nu m) \<noteq> Inr ()"
    using assms(2-4) checkTier_self [of userId m ?nu] checkTier_JV [of userId m ?nu]
      checkTier_admin [of userId m ?nu]
    by blast
  then have "fst (checkTier userId ?nu m) = Inl forbidden"
    using checkTier_cases [of userId ?nu m] by simp
  then have a: "fst (authorizeUpdate e userId newUser m) = Inl forbidden"
    by (simp add: authorizeUpdate_fetched [OF assms(1)])
  then have "fst (validateUpdate e userId newUser m) = Inl forbidden"
    by (simp add: validateUpdate_forbidden_iff)
  moreover have "\<forall>user allowedEdits key.
             key \<in> set (obj_keys user) \<and> key \<noteq> ''id'' \<and> key \<notin> set allowedEdits \<longrightarrow>
             checkModifyPermission user allowedEdits = Inl forbidden"
    using checkModifyPermission_forbidden by blast
  ultimately show ?thesis using a by (simp add: forbidden_def)
qed

theorem forbidden_field_rejects_whole_update_witness:
  "fst (authorizeUpdate testEnv 1 [(''email'', JStr ''new@user.com''), (''role'', JStr ''yllapitaja'')]
          \<lparr>modifierId = 1, modifierRole = Yllapitaja\<rparr>)
     = Inl (ServiceError 403 ''Forbidden modify action'')
   \<and> fst (validateUpdate testEnv 1 [(''email'', JStr ''new@user.com''), (''role'', JStr ''yllapitaja'')]
          \<lparr>modifierId = 1, modifierRole = Yllapitaja\<rparr>)
     = Inl (ServiceError 403 ''Forbidden modify action'')"
proof -
  have k: "''role'' \<in> set (obj_keys (removeUnchanged testUser
             [(''email'', JStr ''new@user.com''), (''role'', JStr ''yllapitaja'')]))"
    by (simp add: testUser_def removeUnchanged_def obj_keys_def obj_get_def obj_delete_def)
  have a: "''role'' \<notin> set allowedSelfEdit"
    by (simp add: allowedSelfEdit_def)
  show ?thesis
    using forbidden_field_rejects_whole_update [OF fetch_testUser k,
        where m = "\<lparr>modifierId = 1, modifierRole = Yllapitaja\<rparr>"] a
    by simp
qed



text \<open>
  C2. Self edit (the modifier's id is the target's id), whatever the modifier's role: the
  permission check accepts exactly when every field left in the payload after the
  unchanged ones are dropped is \<open>id\<close> or one of screenName, email, residence, phone,
  isHYYMember, isTKTL, password1, password2. Otherwise it ends in
  \<open>ServiceError(403, "Forbidden modify action")\<close>, and \<open>validateUpdate\<close> ends in that
  error exactly when the permission check does not accept. (The checks that follow an
  accepted permission check can still end in a 400 or a \<open>TypeError\<close>, never in a 403.)
\<close>

theorem self_edit_accept_iff:
  assumes "fetchUser e userId = Inr oldUser" and "userId = modifierId m"
  shows "(fst (authorizeUpdate e userId newUser m) = Inr () \<longleftrightarrow>
            (\<forall>k \<in> set (obj_keys (removeUnchanged oldUser newUser)).
               k = ''id'' \<or> k \<in> {''screenName'', ''email'', ''residence'', ''phone'',
                                   ''isHYYMember'', ''isTKTL'', ''password1'', ''password2''}))
       \<and> (fst (authorizeUpdate e userId newUser m) \<noteq> Inr () \<longleftrightarrow>
            fst (authorizeUpdate e userId newUser m) = Inl (ServiceError 403 ''Forbidden modify action''))
       \<and> (fst (validateUpdate e userId newUser m) = Inl (ServiceError 403 ''Forbidden modify action'') \<longleftrightarrow>
            fst (authorizeUpdate e userId newUser m) \<noteq> Inr ())"
proof -
  let ?nu = "removeUnchanged oldUser newUser"
  have a: "authorizeUpdate e userId newUser m = checkTier userId ?nu m"
    by (rule authorizeUpdate_fetched [OF assms(1)])
  have 1: "fst (authorizeUpdate e userId newUser m) = Inr () \<longleftrightarrow>
            (\<forall>k \<in> set (obj_keys ?nu).
               k = ''id'' \<or> k \<in> {''screenName'', ''email'', ''residence'', ''phone'',
                                   ''isHYYMember'', ''isTKTL'', ''password1'', ''password2''})"
    unfolding a checkTier_self [OF assms(2)] set_allowedSelfEdit ..
  have 2: "fst (authorizeUpdate e userId newUser m) \<noteq> Inr () \<longleftrightarrow>
            fst (authorizeUpdate e userId newUser m) = Inl forbidden"
    unfolding a using checkTier_cases [of userId ?nu m] by auto
  have 3: "fst (validateUpdate e userId newUser m) = Inl forbidden \<longleftrightarrow>
            fst (authorizeUpdate e userId newUser m) \<noteq> Inr ()"
    unfolding validateUpdate_forbidden_iff 2 ..
  from 1 2 3 show ?thesis unfolding forbidden_def by blast
qed

theorem self_edit_accept_iff_witness:
  "fst (authorizeUpdate testEnv 1 [(''email'', JStr ''new@user.com''), (''phone'', JStr ''555'')]
          \<lparr>modifierId = 1, modifierRole = Kayttaja\<rparr>) = Inr ()
   \<and> fst (authorizeUpdate testEnv 1 [(''role'', JStr ''yllapitaja'')]
          \<lparr>modifierId = 1, modifierRole = Yllapitaja\<rparr>)
       = Inl (ServiceError 403 ''Forbidden modify action'')
   \<and> fst (validateUpdate testEnv 1 [(''role'', JStr ''yllapitaja'')]
          \<lparr>modifierId = 1, modifierRole = Yllapitaja\<rparr>)
       = Inl (ServiceError 403 ''Forbidden modify action'')"
proof -
  have k1: "obj_keys (removeUnchanged testUser
              [(''email'', JStr ''new@user.com''), (''phone'', JStr ''555'')]) = [''email'', ''phone'']"
    by (simp add: testUser_def removeUnchanged_def obj_keys_def obj_get_def obj_delete_def)
  have k2: "obj_keys (removeUnchanged testUser [(''role'', JStr ''yllapitaja'')]) = [''role'']"
    by (simp add: testUser_def removeUnchanged_def obj_keys_def obj_get_def obj_delete_def)
  show ?thesis
    using self_edit_accept_iff [OF fetch_testUser,
        of "\<lparr>modifierId = 1, modifierRole = Kayttaja\<rparr>"
        "[(''email'', JStr ''new@user.com''), (''phone'', JStr ''555'')]"]
      self_edit_accept_iff [OF fetch_testUser,
        of "\<lparr>modifierId = 1, modifierRole = Yllapitaja\<rparr>" "[(''role'', JStr ''yllapitaja'')]"]
    unfolding k1 k2 by auto
qed

text \<open>
  C3. The modifier is not the target. A Jasenvirkailija is accepted exactly when every
  remaining field is \<open>id\<close> or in the self-edit set plus name, username, membership; a
  Yllapitaja exactly when every remaining field is \<open>id\<close> or in that set plus role,
  createdAt; every other role ends in \<open>ServiceError(403, "Forbidden modify action")\<close>,
  which is also the only way the permission check fails.
\<close>

theorem other_edit_tiers:
  assumes "fetchUser e userId = Inr oldUser" and "userId \<noteq> modifierId m"
  shows "(modifierRole m = Jasenvirkailija \<longrightarrow>
            (fst (authorizeUpdate e userId newUser m) = Inr () \<longleftrightarrow>
               (\<forall>k \<in> set (obj_keys (removeUnchanged oldUser newUser)).
                  k = ''id'' \<or> k \<in> {''screenName'', ''email'', ''residence'', ''phone'',
                      ''isHYYMember'', ''isTKTL'', ''password1'', ''password2''}
                    \<union> {''name'', ''username'', ''membership''})))
       \<and> (modifierRole m = Yllapitaja \<longrightarrow>
            (fst (authorizeUpdate e userId newUser m) = Inr () \<longleftrightarrow>
               (\<forall>k \<in> set (obj_keys (removeUnchanged oldUser newUser)).
                  k = ''id'' \<or> k \<in> ({''screenName'', ''email'', ''residence'', ''phone'',
                      ''isHYYMember'', ''isTKTL'', ''password1'', ''password2''}
                    \<union> {''name'', ''username'', ''membership''}) \<union> {''role'', ''createdAt''})))
       \<and> (modifierRole m \<noteq> Jasenvirkailija \<and> modifierRole m \<noteq> Yllapitaja \<longrightarrow>
            fst (authorizeUpdate e userId newUser m) = Inl (ServiceError 403 ''Forbidden modify action''))
       \<and> (fst (authorizeUpdate e userId newUser m) \<noteq> Inr () \<longleftrightarrow>
            fst (authorizeUpdate e userId newUser m) = Inl (ServiceError 403 ''Forbidden modify action''))
       \<and> (fst (validateUpdate e userId newUser m) = Inl (ServiceError 403 ''Forbidden modify action'') \<longleftrightarrow>
            fst (authorizeUpdate e userId newUser m) \<noteq> Inr ())"
proof -
  let ?nu = "removeUnchanged oldUser newUser"
  have a: "authorizeUpdate e userId newUser m = checkTier userId ?nu m"
    by (rule authorizeUpdate_fetched [OF assms(1)])
  have 1: "modifierRole m = Jasenvirkailija \<longrightarrow>
            (fst (authorizeUpdate e userId newUser m) = Inr () \<longleftrightarrow>
               (\<forall>k \<in> set (obj_keys ?nu).
                  k = ''id'' \<or> k \<in> {''screenName'', ''email'', ''residence'', ''phone'',
                      ''isHYYMember'', ''isTKTL'', ''password1'', ''password2''}
                    \<union> {''name'', ''username'', ''membership''}))"
    unfolding a using checkTier_JV [OF assms(2), of ?nu] unfolding set_allowedJVEdit by blast
  have 2: "modifierRole m = Yllapitaja \<longrightarrow>
            (fst (authorizeUpdate e userId newUser m) = Inr () \<longleftrightarrow>
               (\<forall>k \<in> set (obj_keys ?nu).
                  k = ''id'' \<or> k \<in> ({''screenName'', ''email'', ''residence'', ''phone'',
                      ''isHYYMember'', ''isTKTL'', ''password1'', ''password2''}
                    \<union> {''name'', ''username'', ''membership''}) \<union> {''role'', ''createdAt''}))"
    unfolding a using checkTier_admin [OF assms(2), of ?nu] unfolding set_allowedAdminEdit by blast
  have 3: "modifierRole m \<noteq> Jasenvirkailija \<and> modifierRole m \<noteq> Yllapitaja \<longrightarrow>
            fst (authorizeUpdate e userId newUser m) = Inl forbidden"
    unfolding a using checkTier_other [OF assms(2), of ?nu] by simp
  have 4: "fst (authorizeUpdate e userId newUser m) \<noteq> Inr () \<longleftrightarrow>
            fst (authorizeUpdate e userId newUser m) = Inl forbidden"
    unfolding a using checkTier_cases [of userId ?nu m] by auto
  have 5: "fst (validateUpdate e userId newUser m) = Inl forbidden \<longleftrightarrow>
            fst (authorizeUpdate e userId newUser m) \<noteq> Inr ()"
    unfolding validateUpdate_forbidden_iff 4 ..
  from 1 2 3 4 5 show ?thesis unfolding forbidden_def by blast
qed

theorem other_edit_tiers_witness:
  "fst (authorizeUpdate testEnv 1 [(''username'', JStr ''other''), (''membership'', JStr ''ei-jasen'')]
          \<lparr>modifierId = 2, modifierRole = Jasenvirkailija\<rparr>) = Inr ()
   \<and> fst (authorizeUpdate testEnv 1 [(''role'', JStr ''yllapitaja'')]
          \<lparr>modifierId = 2, modifierRole = Jasenvirkailija\<rparr>)
       = Inl (ServiceError 403 ''Forbidden modify action'')
   \<and> fst (authorizeUpdate testEnv 1 [(''role'', JStr ''yllapitaja''), (''createdAt'', JStr ''2019'')]
          \<lparr>modifierId = 2, modifierRole = Yllapitaja\<rparr>) = Inr ()
   \<and> fst (authorizeUpdate testEnv 1 [(''phone'', JStr ''555'')]
          \<lparr>modifierId = 2, modifierRole = Kayttaja\<rparr>)
       = Inl (ServiceError 403 ''Forbidden modify action'')"
proof -
  have k1: "obj_keys (removeUnchanged testUser
              [(''username'', JStr ''other''), (''membership'', JStr ''ei-jasen'')])
            = [''username'', ''membership'']"
    by (simp add: testUser_def removeUnchanged_def obj_keys_def obj_get_def obj_delete_def)
  have k2: "obj_keys (removeUnchanged testUser [(''role'', JStr ''yllapitaja'')]) = [''role'']"
    by (simp add: testUser_def removeUnchanged_def obj_keys_def obj_get_def obj_delete_def)
  have k3: "obj_keys (removeUnchanged testUser
              [(''role'', JStr ''yllapitaja''), (''createdAt'', JStr ''2019'')])
            = [''role'', ''createdAt'']"
    by (simp add: testUser_def removeUnchanged_def obj_keys_def obj_get_def obj_delete_def)
  show ?thesis
    using other_edit_tiers [OF fetch_testUser,
        of "\<lparr>modifierId = 2, modifierRole = Jasenvirkailija\<rparr>"
        "[(''username'', JStr ''other''), (''membership'', JStr ''ei-jasen'')]"]
      other_edit_tiers [OF fetch_testUser,
        of "\<lparr>modifierId = 2, modifierRole = Jasenvirkailija\<rparr>" "[(''role'', JStr ''yllapitaja'')]"]
      other_edit_tiers [OF fetch_testUser,
        of "\<lparr>modifierId = 2, modifierRole = Yllapitaja\<rparr>"
        "[(''role'', JStr ''yllapitaja''), (''createdAt'', JStr ''2019'')]"]
      other_edit_tiers [OF fetch_testUser,
        of "\<lparr>modifierId = 2, modifierRole = Kayttaja\<rparr>" "[(''phone'', JStr ''555'')]"]
    unfolding k1 k2 k3 by auto
qed

lemma dropped_key:
  assumes "distinct (obj_keys nu)" and "p \<in> set nu"
    and "obj_get old (fst p) \<noteq> JUndefined" and "obj_get old (fst p) = snd p"
  shows "fst p \<notin> set (obj_keys (removeUnchanged old nu))"
proof
  assume "fst p \<in> set (obj_keys (removeUnchanged old nu))"
  then obtain q where q: "q \<in> set nu" "fst q = fst p"
      "\<not> (obj_get old (fst q) \<noteq> JUndefined \<and> obj_get old (fst q) = snd q)"
    unfolding removeUnchanged_filter [OF assms(1)] obj_keys_def by auto
  from assms(1) q(1,2) assms(2) have "snd q = snd p"
    unfolding obj_keys_def by (metis eq_key_imp_eq_value prod.collapse)
  with q(2) have "q = p" by (simp add: prod_eq_iff)
  with q(3) assms(3,4) show False by simp
qed

lemma removeUnchanged_all:
  assumes "distinct (obj_keys nu)"
    and "\<forall>p \<in> set nu. snd p \<noteq> JUndefined \<and> obj_get old (fst p) = snd p"
  shows "removeUnchanged old nu = []"
  unfolding removeUnchanged_filter [OF assms(1)] using assms(2) by (auto simp: filter_empty_conv)

lemma validateRest_empty: "validateRest e [] = (Inr (), [])"
  by (simp add: validateRest_def checkUsernameAvailability_def checkEmailAvailability_def
      checkMalformedEmail_def convertBooleans_def checkPasswords_def obj_get_def)

lemma validateRest_id: "validateRest e [(''id'', v)] = (Inr (), [(''id'', v)])"
  by (simp add: validateRest_def checkUsernameAvailability_def checkEmailAvailability_def
      checkMalformedEmail_def convertBooleans_def checkPasswords_def obj_get_def)

lemma checkTier_empty:
  "userId = modifierId m \<or> modifierRole m = Jasenvirkailija \<or> modifierRole m = Yllapitaja \<Longrightarrow>
   checkTier userId [] m = (Inr (), if userId = modifierId m then [(''id'', JNum userId)] else [])"
  by (auto simp: checkTier_def checkModifyPermission_def obj_keys_def)

text \<open>
  C5. For a payload with distinct keys: a proposed field that holds a value (not
  \<open>undefined\<close>) strictly equal to the stored user's is no longer in the payload when the
  allowed list is consulted, and the permission check is the tier check of the payload so
  reduced. When every proposed field is such a field, nothing is left to authorize: for a
  self edit, a Jasenvirkailija and a Yllapitaja the permission check accepts and
  \<open>validateUpdate\<close> returns normally, leaving the payload empty (with \<open>id\<close> assigned on
  the self-edit path).
\<close>

theorem unchanged_fields_dropped_before_check:
  assumes "fetchUser e userId = Inr oldUser" and "distinct (obj_keys newUser)"
  shows "(\<forall>p \<in> set newUser. snd p \<noteq> JUndefined \<and> obj_get oldUser (fst p) = snd p \<longrightarrow>
            fst p \<notin> set (obj_keys (removeUnchanged oldUser newUser)))
       \<and> authorizeUpdate e userId newUser m = checkTier userId (removeUnchanged oldUser newUser) m
       \<and> ((\<forall>p \<in> set newUser. snd p \<noteq> JUndefined \<and> obj_get oldUser (fst p) = snd p)
            \<and> (userId = modifierId m \<or> modifierRole m = Jasenvirkailija \<or> modifierRole m = Yllapitaja)
          \<longrightarrow> fst (authorizeUpdate e userId newUser m) = Inr ()
              \<and> validateUpdate e userId newUser m
                  = (Inr (), if userId = modifierId m then [(''id'', JNum userId)] else []))"
proof (intro conjI)
  show "\<forall>p \<in> set newUser. snd p \<noteq> JUndefined \<and> obj_get oldUser (fst p) = snd p \<longrightarrow>
            fst p \<notin> set (obj_keys (removeUnchanged oldUser newUser))"
    using dropped_key [OF assms(2)] by auto
next
  show a: "authorizeUpdate e userId newUser m = checkTier userId (removeUnchanged oldUser newUser) m"
    by (rule authorizeUpdate_fetched [OF assms(1)])
  show "(\<forall>p \<in> set newUser. snd p \<noteq> JUndefined \<and> obj_get oldUser (fst p) = snd p)
            \<and> (userId = modifierId m \<or> modifierRole m = Jasenvirkailija \<or> modifierRole m = Yllapitaja)
          \<longrightarrow> fst (authorizeUpdate e userId newUser m) = Inr ()
              \<and> validateUpdate e userId newUser m
                  = (Inr (), if userId = modifierId m then [(''id'', JNum userId)] else [])"
  proof
    assume h: "(\<forall>p \<in> set newUser. snd p \<noteq> JUndefined \<and> obj_get oldUser (fst p) = snd p)
            \<and> (userId = modifierId m \<or> modifierRole m = Jasenvirkailija \<or> modifierRole m = Yllapitaja)"
    then have r: "removeUnchanged oldUser newUser = []"
      using removeUnchanged_all [OF assms(2)] by blast
    have t: "authorizeUpdate e userId newUser m
             = (Inr (), if userId = modifierId m then [(''id'', JNum userId)] else [])"
      unfolding a r using h checkTier_empty by blast
    show "fst (authorizeUpdate e userId newUser m) = Inr ()
              \<and> validateUpdate e userId newUser m
                  = (Inr (), if userId = modifierId m then [(''id'', JNum userId)] else [])"
      unfolding validateUpdate_def t by (simp add: validateRest_empty validateRest_id)
  qed
qed

theorem unchanged_fields_dropped_before_check_witness:
  "''role'' \<notin> set (obj_keys (removeUnchanged testUser
       [(''email'', JStr ''test@user.com''), (''role'', JStr ''member'')]))
   \<and> validateUpdate testEnv 1 [(''email'', JStr ''test@user.com''), (''role'', JStr ''member'')]
        \<lparr>modifierId = 1, modifierRole = Kayttaja\<rparr> = (Inr (), [(''id'', JNum 1)])
   \<and> validateUpdate testEnv 1 [(''email'', JStr ''test@user.com''), (''role'', JStr ''member'')]
        \<lparr>modifierId = 2, modifierRole = Jasenvirkailija\<rparr> = (Inr (), [])"
proof -
  have d: "distinct (obj_keys [(''email'', JStr ''test@user.com''), (''role'', JStr ''member'')])"
    by (simp add: obj_keys_def)
  have s: "\<forall>p \<in> set [(''email'', JStr ''test@user.com''), (''role'', JStr ''member'')].
             snd p \<noteq> JUndefined \<and> obj_get testUser (fst p) = snd p"
    by (simp add: testUser_def obj_get_def)
  show ?thesis
    using unchanged_fields_dropped_before_check [OF fetch_testUser d,
        of "\<lparr>modifierId = 1, modifierRole = Kayttaja\<rparr>"]
      unchanged_fields_dropped_before_check [OF fetch_testUser d,
        of "\<lparr>modifierId = 2, modifierRole = Jasenvirkailija\<rparr>"] s
    by simp
qed

text \<open>
  C10. For a payload with distinct keys, the payload object as the permission check leaves
  it is the original without the properties whose value is strictly equal to the stored
  user's, with \<open>id\<close> assigned to the target's id on the self-edit path. When
  \<open>validateUpdate\<close> ends in \<open>ServiceError(403, "Forbidden modify action")\<close>, that
  mutated object is what the caller is left with, and it differs from the payload passed
  in as soon as one property other than \<open>id\<close> was equal to the stored one.
\<close>

theorem payload_mutated_even_when_forbidden:
  assumes "fetchUser e userId = Inr oldUser" and "distinct (obj_keys newUser)"
  shows "snd (authorizeUpdate e userId newUser m)
           = (if userId = modifierId m
              then obj_set ''id'' (JNum userId)
                     (filter (\<lambda>p. \<not> (obj_get oldUser (fst p) \<noteq> JUndefined
                                      \<and> obj_get oldUser (fst p) = snd p)) newUser)
              else filter (\<lambda>p. \<not> (obj_get oldUser (fst p) \<noteq> JUndefined
                                      \<and> obj_get oldUser (fst p) = snd p)) newUser)
       \<and> (fst (validateUpdate e userId newUser m) = Inl (ServiceError 403 ''Forbidden modify action'')
          \<longrightarrow> snd (validateUpdate e userId newUser m) = snd (authorizeUpdate e userId newUser m)
              \<and> ((\<exists>p \<in> set newUser. fst p \<noteq> ''id'' \<and> obj_get oldUser (fst p) \<noteq> JUndefined
                       \<and> obj_get oldUser (fst p) = snd p)
                  \<longrightarrow> snd (validateUpdate e userId newUser m) \<noteq> newUser))"
proof (intro conjI impI)
  have a: "authorizeUpdate e userId newUser m = checkTier userId (removeUnchanged oldUser newUser) m"
    by (rule authorizeUpdate_fetched [OF assms(1)])
  show "snd (authorizeUpdate e userId newUser m)
           = (if userId = modifierId m
              then obj_set ''id'' (JNum userId)
                     (filter (\<lambda>p. \<not> (obj_get oldUser (fst p) \<noteq> JUndefined
                                      \<and> obj_get oldUser (fst p) = snd p)) newUser)
              else filter (\<lambda>p. \<not> (obj_get oldUser (fst p) \<noteq> JUndefined
                                      \<and> obj_get oldUser (fst p) = snd p)) newUser)"
    unfolding a checkTier_snd removeUnchanged_filter [OF assms(2)] ..
  assume f: "fst (validateUpdate e userId newUser m) = Inl (ServiceError 403 ''Forbidden modify action'')"
  then show s: "snd (validateUpdate e userId newUser m) = snd (authorizeUpdate e userId newUser m)"
    using validateUpdate_forbidden_snd [of e userId newUser m] by (simp add: forbidden_def)
  assume "\<exists>p \<in> set newUser. fst p \<noteq> ''id'' \<and> obj_get oldUser (fst p) \<noteq> JUndefined
                       \<and> obj_get oldUser (fst p) = snd p"
  then obtain p where p: "p \<in> set newUser" "fst p \<noteq> ''id''"
      "obj_get oldUser (fst p) \<noteq> JUndefined" "obj_get oldUser (fst p) = snd p"
    by blast
  have "fst p \<notin> set (obj_keys (removeUnchanged oldUser newUser))"
    by (rule dropped_key [OF assms(2) p(1,3,4)])
  with p(2) have "fst p \<notin> set (obj_keys (snd (authorizeUpdate e userId newUser m)))"
    unfolding a checkTier_snd by (simp add: obj_keys_set)
  moreover have "fst p \<in> set (obj_keys newUser)"
    using p(1) by (simp add: obj_keys_def)
  ultimately show "snd (validateUpdate e userId newUser m) \<noteq> newUser"
    unfolding s by auto
qed

lemma validateUpdate_example_forbidden:
  "validateUpdate testEnv 1 [(''email'', JStr ''test@user.com''), (''role'', JStr ''yllapitaja'')]
      \<lparr>modifierId = 1, modifierRole = Yllapitaja\<rparr>
   = (Inl (ServiceError 403 ''Forbidden modify action''), [(''role'', JStr ''yllapitaja''), (''id'', JNum 1)])"
  by (simp add: validateUpdate_def authorizeUpdate_def fetch_testUser testUser_def
      removeUnchanged_def obj_keys_def obj_get_def obj_delete_def checkTier_def
      checkModifyPermission_def allowedSelfEdit_def forbidden_def)

theorem payload_mutated_even_when_forbidden_witness:
  "fst (validateUpdate testEnv 1 [(''email'', JStr ''test@user.com''), (''role'', JStr ''yllapitaja'')]
      \<lparr>modifierId = 1, modifierRole = Yllapitaja\<rparr>) = Inl (ServiceError 403 ''Forbidden modify action'')
   \<and> snd (validateUpdate testEnv 1 [(''email'', JStr ''test@user.com''), (''role'', JStr ''yllapitaja'')]
      \<lparr>modifierId = 1, modifierRole = Yllapitaja\<rparr>)
       = obj_set ''id'' (JNum 1) [(''role'', JStr ''yllapitaja'')]
   \<and> snd (validateUpdate testEnv 1 [(''email'', JStr ''test@user.com''), (''role'', JStr ''yllapitaja'')]
      \<lparr>modifierId = 1, modifierRole = Yllapitaja\<rparr>)
       \<noteq> [(''email'', JStr ''test@user.com''), (''role'', JStr ''yllapitaja'')]"
proof -
  let ?payload = "[(''email'', JStr ''test@user.com''), (''role'', JStr ''yllapitaja'')]"
  let ?m = "\<lparr>modifierId = 1, modifierRole = Yllapitaja\<rparr>"
  have d: "distinct (obj_keys ?payload)"
    by (simp add: obj_keys_def)
  have f: "fst (validateUpdate testEnv 1 ?payload ?m) = Inl (ServiceError 403 ''Forbidden modify action'')"
    by (simp add: validateUpdate_example_forbidden)
  have g: "obj_get testUser ''email'' = JStr ''test@user.com''"
    by (simp add: testUser_def obj_get_def)
  have ex: "\<exists>p \<in> set ?payload. fst p \<noteq> ''id'' \<and> obj_get testUser (fst p) \<noteq> JUndefined
              \<and> obj_get testUser (fst p) = snd p"
    by (simp add: g)
  have "snd (validateUpdate testEnv 1 ?payload ?m) \<noteq> ?payload"
    using payload_mutated_even_when_forbidden [OF fetch_testUser d, of ?m] f ex by blast
  moreover have "snd (validateUpdate testEnv 1 ?payload ?m) = obj_set ''id'' (JNum 1) [(''role'', JStr ''yllapitaja'')]"
    by (simp add: validateUpdate_example_forbidden)
  ultimately show ?thesis using f by blast
qed

section \<open>Properties of the controller and of the middleware\<close>

lemma js_bitand_pow_iff:
  assumes "idx < 31"
  shows "js_bitand (2 ^ idx) m = 2 ^ idx \<longleftrightarrow> bit m idx"
proof -
  have "bit (js_bitand (2 ^ idx) m) n \<longleftrightarrow> n = idx \<and> bit m idx" for n
    using assms unfolding js_bitand_def
    by (auto simp: bit_sint_iff bit_and_iff bit_word_of_int_iff bit_exp_iff)
  then show ?thesis
    by (auto simp: bit_eq_iff bit_exp_iff)
qed

lemma js_bitand_pow_high:
  assumes "31 \<le> idx"
  shows "js_bitand (2 ^ idx) m \<noteq> 2 ^ idx"
proof
  assume a: "js_bitand (2 ^ idx) m = 2 ^ idx"
  have "js_bitand (2 ^ idx) m < 2 ^ 31"
    unfolding js_bitand_def using sint_lt [of "(word_of_int (2 ^ idx) :: 32 word) AND word_of_int m"]
    by simp
  moreover have "(2::int) ^ 31 \<le> 2 ^ idx"
    using assms by (intro power_increasing) auto
  ultimately show False using a by simp
qed

lemma js_bitand_test:
  "js_bitand (2 ^ idx) m = 2 ^ idx \<longleftrightarrow> idx < 31 \<and> bit m idx"
  using js_bitand_pow_iff [of idx m] js_bitand_pow_high [of idx m] by (cases "idx < 31") auto

lemma foldl_push:
  "foldl (\<lambda>keys (idx, key). if P idx then keys @ [(key, g key)] else keys) acc xs
   = acc @ map (\<lambda>(idx, key). (key, g key)) (filter (\<lambda>(idx, key). P idx) xs)"
  by (induction xs arbitrary: acc) (auto split: prod.splits)

lemma enumerate_upt: "enumerate 0 ks = map (\<lambda>i. (i, ks ! i)) [0..<length ks]"
  by (rule nth_equalityI) (simp_all add: nth_enumerate_eq)

lemma selectVisibleFields_upt:
  "selectVisibleFields user perms
   = map (\<lambda>i. (obj_keys user ! i, obj_get user (obj_keys user ! i)))
       (filter (\<lambda>i. i < 31 \<and> bit perms i) [0..<length user])"
proof -
  have "selectVisibleFields user perms
        = map (\<lambda>(idx, key). (key, obj_get user key))
            (filter (\<lambda>(idx, key). js_bitand (2 ^ idx) perms = 2 ^ idx) (enumerate 0 (obj_keys user)))"
    unfolding selectVisibleFields_def by (simp add: foldl_push)
  also have "\<dots> = map (\<lambda>i. (obj_keys user ! i, obj_get user (obj_keys user ! i)))
       (filter (\<lambda>i. js_bitand (2 ^ i) perms = 2 ^ i) [0..<length (obj_keys user)])"
    unfolding enumerate_upt by (simp add: filter_map comp_def)
  finally show ?thesis by (simp add: js_bitand_test obj_keys_def)
qed

lemma selectVisibleFields_nth:
  assumes "distinct (obj_keys user)"
  shows "selectVisibleFields user perms
         = map ((!) user) (filter (\<lambda>i. i < 31 \<and> bit perms i) [0..<length user])"
proof -
  have "(obj_keys user ! i, obj_get user (obj_keys user ! i)) = user ! i" if "i < length user" for i
  proof -
    have "user ! i \<in> set user" using that by simp
    then have "obj_get user (fst (user ! i)) = snd (user ! i)"
      using assms obj_get_distinct [of user "fst (user ! i)" "snd (user ! i)"]
      by (simp add: obj_keys_def)
    then show ?thesis using that by (simp add: obj_keys_def prod_eq_iff)
  qed
  then show ?thesis
    unfolding selectVisibleFields_upt by (intro map_cong) auto
qed

text \<open>
  C4. A \<open>User\<close> has the 15 fields of the data model, so the user object has distinct
  keys and fewer than 32 of them. For such an object and any integer \<open>dataPermissions\<close>
  the result lists exactly the properties whose index \<open>i\<close> in key order has bit \<open>i\<close> of
  \<open>dataPermissions\<close> set, in key order; \<open>dataPermissions = 0\<close> gives the empty list; and
  the bits at and beyond the number of properties change nothing. Nothing in the loop
  throws.
\<close>

theorem selectVisibleFields_by_bits:
  assumes "distinct (obj_keys user)" and "length user \<le> 31"
  shows "selectVisibleFields user perms = map ((!) user) (filter (bit perms) [0..<length user])
       \<and> selectVisibleFields user 0 = []
       \<and> selectVisibleFields user (take_bit (length user) perms) = selectVisibleFields user perms"
proof (intro conjI)
  have g: "selectVisibleFields user perms
            = map ((!) user) (filter (\<lambda>i. i < 31 \<and> bit perms i) [0..<length user])"
    by (rule selectVisibleFields_nth [OF assms(1)])
  have "filter (\<lambda>i. i < 31 \<and> bit perms i) [0..<length user] = filter (bit perms) [0..<length user]"
    using assms(2) by (intro filter_cong) auto
  then show "selectVisibleFields user perms = map ((!) user) (filter (bit perms) [0..<length user])"
    unfolding g by simp
  show "selectVisibleFields user 0 = []"
    by (simp add: selectVisibleFields_upt)
  show "selectVisibleFields user (take_bit (length user) perms) = selectVisibleFields user perms"
    unfolding selectVisibleFields_upt
    by (rule arg_cong [where f = "map _"], rule filter_cong) (auto simp: bit_take_bit_iff)
qed

lemma testUser_bits_5:
  "map ((!) testUser) (filter (bit (5::int)) [0..<length testUser])
   = [(''id'', JNum 1), (''name'', JStr ''Test User'')]"
  by code_simp

lemma testUser_shape: "distinct (obj_keys testUser)" "length testUser \<le> 31"
  by (simp_all add: testUser_def obj_keys_def)

lemma testUser_high_bits: "take_bit (length testUser) (2 ^ 40 + 5 :: int) = 5"
  by code_simp

theorem selectVisibleFields_by_bits_witness:
  "selectVisibleFields testUser 5 = [(''id'', JNum 1), (''name'', JStr ''Test User'')]
   \<and> selectVisibleFields testUser 0 = []
   \<and> selectVisibleFields testUser (2 ^ 40 + 5) = [(''id'', JNum 1), (''name'', JStr ''Test User'')]"
proof -
  have 1: "selectVisibleFields testUser 5 = [(''id'', JNum 1), (''name'', JStr ''Test User'')]"
    and 2: "selectVisibleFields testUser 0 = []"
    using selectVisibleFields_by_bits [OF testUser_shape, of 5]
    by (simp_all add: testUser_bits_5)
  have "selectVisibleFields testUser (take_bit (length testUser) (2 ^ 40 + 5))
        = selectVisibleFields testUser (2 ^ 40 + 5)"
    using selectVisibleFields_by_bits [OF testUser_shape, of "2 ^ 40 + 5"] by blast
  then have "selectVisibleFields testUser (2 ^ 40 + 5) = selectVisibleFields testUser 5"
    unfolding testUser_high_bits by (rule sym)
  with 1 2 show ?thesis by simp
qed

lemma vanillaAuthenticate_calls:
  assumes "truthy (obj_get body ''permissionVal'')" and "truthy (obj_get body ''redirectTo'')"
    and "truthy (obj_get body ''permission'')" and "truthy (obj_get body ''userId'')"
  shows "snd (vanillaAuthenticate createToken hostname body)
         = [(obj_get body ''userId'', obj_get body ''permissionVal'')]"
  using assms unfolding vanillaAuthenticate_def Let_def
  by (simp split: sum.splits)

text \<open>
  C6. When the four body fields of \<open>authenticate\<close> are truthy, the handler calls
  \<open>createToken\<close> once, with the body's \<open>userId\<close> and the constant \<open>1\<close>: the token is
  minted for level 1 whatever \<open>permission\<close> the caller supplied, and the response carries
  that token (or, when \<open>createToken\<close> throws, a 500 with the exception's message).
\<close>

theorem authenticate_token_level_is_one:
  assumes "truthy (obj_get body ''serviceName'')" and "truthy (obj_get body ''redirectTo'')"
    and "truthy (obj_get body ''permission'')" and "truthy (obj_get body ''userId'')"
  shows "snd (authenticate createToken body) = [(obj_get body ''userId'', JNum 1)]
       \<and> fst (authenticate createToken body)
           = (case createToken (obj_get body ''userId'') (JNum 1) of
                Inl e \<Rightarrow> Json 500 None (message e)
              | Inr token \<Rightarrow> Json 200 (Some (TokenPayload token (obj_get body ''redirectTo''))) ''Success'')"
  using assms unfolding authenticate_def
  by (simp split: sum.splits)

theorem authenticate_token_level_is_one_witness:
  "snd (authenticate testCreateToken
          [(''serviceName'', JStr ''kjyr''), (''redirectTo'', JStr ''https://kjyr.fi''),
           (''permission'', JStr ''7''), (''userId'', JNum 5)]) = [(JNum 5, JNum 1)]
   \<and> fst (authenticate testCreateToken
          [(''serviceName'', JStr ''kjyr''), (''redirectTo'', JStr ''https://kjyr.fi''),
           (''permission'', JStr ''7''), (''userId'', JNum 5)])
       = Json 200 (Some (TokenPayload ''signed'' (JStr ''https://kjyr.fi''))) ''Success''"
  using authenticate_token_level_is_one [of
      "[(''serviceName'', JStr ''kjyr''), (''redirectTo'', JStr ''https://kjyr.fi''),
        (''permission'', JStr ''7''), (''userId'', JNum 5)]" testCreateToken]
  by (simp add: obj_get_def testCreateToken_def)

text \<open>
  C8. When \<open>userId\<close> or \<open>permission\<close> of the body is missing (falsy: absent, \<open>null\<close>,
  the empty string, \<open>0\<close>, \<open>false\<close>), \<open>authenticate\<close> answers 400 "Invalid POST params"
  and makes no call of \<open>createToken\<close>.
\<close>

theorem authenticate_missing_field:
  assumes "\<not> truthy (obj_get body ''userId'') \<or> \<not> truthy (obj_get body ''permission'')"
  shows "authenticate createToken body = (Json 400 None ''Invalid POST params'', [])"
  using assms unfolding authenticate_def by auto

theorem authenticate_missing_field_witness:
  "authenticate testCreateToken
     [(''serviceName'', JStr ''kjyr''), (''redirectTo'', JStr ''https://kjyr.fi''), (''userId'', JNum 5)]
     = (Json 400 None ''Invalid POST params'', [])
   \<and> authenticate testCreateToken
     [(''serviceName'', JStr ''kjyr''), (''redirectTo'', JStr ''https://kjyr.fi''),
      (''permission'', JNum 0), (''userId'', JNum 5)]
     = (Json 400 None ''Invalid POST params'', [])
   \<and> authenticate testCreateToken
     [(''serviceName'', JStr ''kjyr''), (''redirectTo'', JStr ''https://kjyr.fi''),
      (''permission'', JStr ''7''), (''userId'', JStr [])]
     = (Json 400 None ''Invalid POST params'', [])"
  using authenticate_missing_field [of
      "[(''serviceName'', JStr ''kjyr''), (''redirectTo'', JStr ''https://kjyr.fi''), (''userId'', JNum 5)]"
      testCreateToken]
    authenticate_missing_field [of
      "[(''serviceName'', JStr ''kjyr''), (''redirectTo'', JStr ''https://kjyr.fi''),
        (''permission'', JNum 0), (''userId'', JNum 5)]" testCreateToken]
    authenticate_missing_field [of
      "[(''serviceName'', JStr ''kjyr''), (''redirectTo'', JStr ''https://kjyr.fi''),
        (''permission'', JStr ''7''), (''userId'', JStr [])]" testCreateToken]
  by (simp add: obj_get_def)

text \<open>
  C7, as amended. When the decoder throws \<open>e\<close> on the token string: \<open>authorize\<close> and
  \<open>loadToken\<close> answer a bearer header with status 500 and \<open>e.message\<close> as the message,
  and so does the cookie path of \<open>loadToken\<close>. The opaque 401 "Unauthorized" is the
  answer of \<open>authorize\<close> to a request whose authorization header is missing or does not
  start with \<open>Bearer \<close>, and to no other request; \<open>loadToken\<close> never answers 401.
\<close>

theorem decode_failure_echoes_message:
  assumes "(stringToServiceToken :: string \<Rightarrow> error + 't) s = Inl e"
  shows "(headerAuthorization req = Some (''Bearer '' @ s) \<longrightarrow>
            authorize stringToServiceToken req = Responded (Json 500 None (message e))
          \<and> loadToken stringToServiceToken req = Inr (Responded (Json 500 None (message e))))
       \<and> ((case headerAuthorization req of None \<Rightarrow> True | Some t \<Rightarrow> \<not> prefix ''Bearer '' t)
            \<and> (\<exists>c. headerCookie req = Some c \<and> 1 < length (js_split ''token='' c)
                     \<and> js_split ''token='' c ! 1 = s) \<longrightarrow>
            loadToken stringToServiceToken req = Inr (Responded (Json 500 None (message e))))
       \<and> (\<forall>(decoder :: string \<Rightarrow> error + 't) r.
            authorize decoder r = Responded (Json 401 None ''Unauthorized'') \<longleftrightarrow>
            (case headerAuthorization r of None \<Rightarrow> True | Some t \<Rightarrow> \<not> prefix ''Bearer '' t))
       \<and> (\<forall>(decoder :: string \<Rightarrow> error + 't) r p m.
            loadToken decoder r \<noteq> Inr (Responded (Json 401 p m)))"
proof -
  have "loadToken decoder r \<noteq> Inr (Responded (Json 401 p m))"
    for decoder :: "string \<Rightarrow> error + 't" and r p m
    unfolding loadToken_def loadTokenFromCookie_def Let_def
    by (auto split: option.splits sum.splits)
  moreover have "authorize decoder r = Responded (Json 401 None ''Unauthorized'') \<longleftrightarrow>
        (case headerAuthorization r of None \<Rightarrow> True | Some t \<Rightarrow> \<not> prefix ''Bearer '' t)"
    for decoder :: "string \<Rightarrow> error + 't" and r
    unfolding authorize_def by (auto split: option.splits sum.splits)
  moreover have "headerAuthorization req = Some (''Bearer '' @ s) \<longrightarrow>
            authorize stringToServiceToken req = Responded (Json 500 None (message e))
          \<and> loadToken stringToServiceToken req = Inr (Responded (Json 500 None (message e)))"
    using assms unfolding authorize_def loadToken_def by auto
  moreover have "(case headerAuthorization req of None \<Rightarrow> True | Some t \<Rightarrow> \<not> prefix ''Bearer '' t)
            \<and> (\<exists>c. headerCookie req = Some c \<and> 1 < length (js_split ''token='' c)
                     \<and> js_split ''token='' c ! 1 = s) \<longrightarrow>
            loadToken stringToServiceToken req = Inr (Responded (Json 500 None (message e)))"
    using assms unfolding loadToken_def loadTokenFromCookie_def Let_def
    by (auto split: option.splits)
  ultimately show ?thesis by blast
qed

lemma split_cookie_example: "js_split ''token='' ''lang=fi; token=bad'' = [''lang=fi; '', ''bad'']"
  by code_simp

theorem decode_failure_echoes_message_witness:
  "authorize testDecoder \<lparr>headerAuthorization = Some ''Bearer bad'', headerCookie = None\<rparr>
     = Responded (Json 500 None ''jwt malformed'')
   \<and> loadToken testDecoder \<lparr>headerAuthorization = Some ''Bearer bad'', headerCookie = None\<rparr>
     = Inr (Responded (Json 500 None ''jwt malformed''))
   \<and> loadToken testDecoder \<lparr>headerAuthorization = None, headerCookie = Some ''lang=fi; token=bad''\<rparr>
     = Inr (Responded (Json 500 None ''jwt malformed''))
   \<and> authorize testDecoder \<lparr>headerAuthorization = None, headerCookie = Some ''token=t1''\<rparr>
     = Responded (Json 401 None ''Unauthorized'')
   \<and> authorize testDecoder \<lparr>headerAuthorization = Some ''Basic abc'', headerCookie = None\<rparr>
     = Responded (Json 401 None ''Unauthorized'')
   \<and> authorize testDecoder \<lparr>headerAuthorization = Some ''Bearer bad'', headerCookie = None\<rparr>
     \<noteq> Responded (Json 401 None ''Unauthorized'')"
proof -
  have d: "testDecoder ''bad'' = Inl (Error ''jwt malformed'')"
    by (simp add: testDecoder_def)
  note t = decode_failure_echoes_message [where stringToServiceToken = testDecoder and s = "''bad''", OF d]
  have a: "\<And>r. authorize testDecoder r = Responded (Json 401 None ''Unauthorized'') \<longleftrightarrow>
        (case headerAuthorization r of None \<Rightarrow> True | Some t \<Rightarrow> \<not> prefix ''Bearer '' t)"
    using t by blast
  show ?thesis
    using t [where req = "\<lparr>headerAuthorization = Some ''Bearer bad'', headerCookie = None\<rparr>"]
      t [where req = "\<lparr>headerAuthorization = None, headerCookie = Some ''lang=fi; token=bad''\<rparr>"]
    by (simp add: split_cookie_example a)
qed

text \<open>
  C7 as stated fails: a bearer token the decoder rejects with "jwt malformed" is answered
  by \<open>authorize\<close> with status 500 and that very message, not with the 401 "Unauthorized".
\<close>

theorem decode_failure_not_opaque_counterexample:
  "testDecoder ''bad'' = Inl (Error ''jwt malformed'')
   \<and> authorize testDecoder \<lparr>headerAuthorization = Some ''Bearer bad'', headerCookie = None\<rparr>
       = Responded (Json 500 None ''jwt malformed'')
   \<and> authorize testDecoder \<lparr>headerAuthorization = Some ''Bearer bad'', headerCookie = None\<rparr>
       \<noteq> Responded (Json 401 None ''Unauthorized'')"
  by (simp add: authorize_def testDecoder_def)

text \<open>
  C9. A request with no cookie header and with no authorization header that starts with
  \<open>Bearer \<close>: \<open>loadToken\<close> neither responds nor calls \<open>next()\<close>, it throws the
  \<open>TypeError\<close> of \<open>.split\<close> on \<open>undefined\<close>.
\<close>

theorem loadToken_without_token_throws:
  assumes "headerCookie req = None"
    and "case headerAuthorization req of None \<Rightarrow> True | Some t \<Rightarrow> \<not> prefix ''Bearer '' t"
  shows "loadToken stringToServiceToken req = Inl (TypeError ''Cannot read property split of undefined'')
       \<and> (\<forall>r. loadToken stringToServiceToken req \<noteq> Inr (Responded r))
       \<and> (\<forall>t. loadToken stringToServiceToken req \<noteq> Inr (Next t))"
  using assms unfolding loadToken_def loadTokenFromCookie_def
  by (auto split: option.splits)

theorem loadToken_without_token_throws_witness:
  "loadToken testDecoder \<lparr>headerAuthorization = None, headerCookie = None\<rparr>
     = Inl (TypeError ''Cannot read property split of undefined'')
   \<and> loadToken testDecoder \<lparr>headerAuthorization = Some ''Basic abc'', headerCookie = None\<rparr>
     = Inl (TypeError ''Cannot read property split of undefined'')"
  using loadToken_without_token_throws [of "\<lparr>headerAuthorization = None, headerCookie = None\<rparr>" testDecoder]
    loadToken_without_token_throws [of "\<lparr>headerAuthorization = Some ''Basic abc'', headerCookie = None\<rparr>" testDecoder]
  by simp

end
